theory Spec2Isabelle
  imports Main
begin

section \<open>The demo file server of \<^verbatim>\<open>src/demo/serve.py\<close>\<close>

text \<open>
  The repository is one request handler, \<^verbatim>\<open>PubSubDemoHandler.do_GET\<close>. It parses the
  request path, prints a summary of the \<^verbatim>\<open>id\<close> and \<^verbatim>\<open>event\<close> query parameters
  (decoding the event from base64url, UTF-8 and JSON) and then hands the request to the
  static file server it inherits from.

  The handler is modelled as a function from the request path to the trace of its
  effects (the lines it prints, the call of the inherited \<^verbatim>\<open>do_GET\<close>) and the
  exception that leaves it, if any. The standard-library functions it calls
  (\<^verbatim>\<open>urlparse\<close>, \<^verbatim>\<open>parse_qs\<close>, \<^verbatim>\<open>base64.urlsafe_b64decode\<close>,
  \<^verbatim>\<open>bytes.decode\<close>, \<^verbatim>\<open>json.loads\<close>) are modelled as CPython 3.11 implements them.
  Interpreter resource limits (recursion depth, the digit limit of integer conversion,
  memory) are outside the model, and \<^verbatim>\<open>print\<close> is taken to write its line
  whatever the encoding of the console.
\<close>

subsection \<open>Text, bytes, exceptions and values\<close>

text \<open>
  A Python \<^verbatim>\<open>str\<close> is a sequence of code points and its length counts code points, so
  it is a list of naturals; \<^verbatim>\<open>bytes\<close> is a list of naturals below 256. The request path
  is what \<^verbatim>\<open>http.server\<close> decodes from the request line as ISO-8859-1: a list of
  8-bit characters.
\<close>

type_synonym pystr = "nat list"
type_synonym pybytes = "nat list"

definition asc :: "string \<Rightarrow> pystr" where
  "asc s = map of_char s"

text \<open>The exceptions the handler can meet; all are subclasses of \<^verbatim>\<open>Exception\<close>.\<close>

datatype error =
    ValueError
  | BinasciiError
  | UnicodeDecodeError
  | JSONDecodeError
  | AttributeError
  | TypeError
  | IndexError

text \<open>
  The values \<^verbatim>\<open>json.loads\<close> returns. A float is kept as the literal that denotes it;
  a dict is the list of its items in insertion order, with distinct keys.
\<close>

datatype pyval =
    PNone
  | PBool bool
  | PInt int
  | PFloat pystr
  | PStr pystr
  | PList "pyval list"
  | PDict "(pystr \<times> pyval) list"

subsection \<open>\<^verbatim>\<open>urllib.parse.urlparse(path).query\<close>\<close>

text \<open>\<^verbatim>\<open>s.partition(c)\<close>: the text before the first \<open>c\<close>, and the text after it when there is one.\<close>

definition str_partition :: "nat \<Rightarrow> pystr \<Rightarrow> pystr \<times> pystr option" where
  "str_partition c s =
     (if c \<in> set s
      then (takeWhile (\<lambda>x. x \<noteq> c) s, Some (tl (dropWhile (\<lambda>x. x \<noteq> c) s)))
      else (s, None))"

definition is_alpha :: "nat \<Rightarrow> bool" where
  "is_alpha c = ((65 \<le> c \<and> c \<le> 90) \<or> (97 \<le> c \<and> c \<le> 122))"

definition is_digit :: "nat \<Rightarrow> bool" where
  "is_digit c = (48 \<le> c \<and> c \<le> 57)"

definition scheme_char :: "nat \<Rightarrow> bool" where
  "scheme_char c = (is_alpha c \<or> is_digit c \<or> c = 43 \<or> c = 45 \<or> c = 46)"

text \<open>
  A scheme is cut off when a colon follows a letter and scheme characters only
  (\<open>58\<close> is the colon).
\<close>

definition strip_scheme :: "pystr \<Rightarrow> pystr" where
  "strip_scheme url =
     (case str_partition 58 url of
        (pre, Some post) \<Rightarrow>
          if pre \<noteq> [] \<and> is_alpha (hd pre) \<and> list_all scheme_char pre then post else url
      | (pre, None) \<Rightarrow> url)"

text \<open>The network location ends at the first of \<open>/\<close>, \<open>?\<close> and \<open>#\<close> (47, 63, 35).\<close>

definition netloc_char :: "nat \<Rightarrow> bool" where
  "netloc_char c = (c \<noteq> 47 \<and> c \<noteq> 63 \<and> c \<noteq> 35)"

text \<open>
  \<^verbatim>\<open>urlsplit\<close>, as far as the query and its exceptions go: leading control characters
  and spaces are stripped, tab, carriage return and newline are removed, the scheme and
  the network location are cut off, a network location with one of \<open>[\<close> and \<open>]\<close> (91, 93)
  but not the other raises \<^verbatim>\<open>ValueError\<close>, and so does a bracketed host that
  \<^verbatim>\<open>_check_bracketed_host\<close> refuses. That check parses IP addresses; it is the parameter
  \<open>check_bracketed_host\<close>. The last check of \<^verbatim>\<open>urlsplit\<close>, \<^verbatim>\<open>_checknetloc\<close>, never raises
  on ISO-8859-1 text. \<^verbatim>\<open>urlparse\<close> goes on to split the parameters off the path, which
  leaves the query as it is.
\<close>

definition urlparse_query :: "(pystr \<Rightarrow> bool) \<Rightarrow> pystr \<Rightarrow> error + pystr" where
  "urlparse_query check_bracketed_host url0 =
     (let url1 = dropWhile (\<lambda>c. c \<le> 32) url0;
          url2 = filter (\<lambda>c. c \<noteq> 9 \<and> c \<noteq> 13 \<and> c \<noteq> 10) url1;
          url3 = strip_scheme url2;
          has_netloc = (take 2 url3 = [47, 47]);
          netloc = (if has_netloc then takeWhile netloc_char (drop 2 url3) else []);
          url4 = (if has_netloc then dropWhile netloc_char (drop 2 url3) else url3)
      in if (91 \<in> set netloc) \<noteq> (93 \<in> set netloc) then Inl ValueError
         else if 91 \<in> set netloc \<and> 93 \<in> set netloc \<and>
                 \<not> check_bracketed_host
                     (takeWhile (\<lambda>c. c \<noteq> 93) (tl (dropWhile (\<lambda>c. c \<noteq> 91) netloc)))
         then Inl ValueError
         else Inr (case snd (str_partition 63 (fst (str_partition 35 url4))) of
                     None \<Rightarrow> []
                   | Some query \<Rightarrow> query))"

text \<open>Older Python versions have no \<^verbatim>\<open>_check_bracketed_host\<close>: every bracketed host passes.\<close>

definition no_bracket_check :: "pystr \<Rightarrow> bool" where
  "no_bracket_check host = True"

subsection \<open>\<^verbatim>\<open>urllib.parse.parse_qs\<close>\<close>

definition hexval :: "nat \<Rightarrow> nat option" where
  "hexval c =
     (if 48 \<le> c \<and> c \<le> 57 then Some (c - 48)
      else if 65 \<le> c \<and> c \<le> 70 then Some (c - 55)
      else if 97 \<le> c \<and> c \<le> 102 then Some (c - 87)
      else None)"

text \<open>\<^verbatim>\<open>unquote_to_bytes\<close> on ASCII text: \<open>%\<close> (37) and two hex digits are one byte.\<close>

fun unquote_to_bytes :: "pystr \<Rightarrow> pybytes" where
  "unquote_to_bytes [] = []"
| "unquote_to_bytes (c # cs) =
     (if c = 37 then
        (case cs of
           a # b # r \<Rightarrow>
             (case (hexval a, hexval b) of
                (Some x, Some y) \<Rightarrow> (x * 16 + y) # unquote_to_bytes r
              | _ \<Rightarrow> c # unquote_to_bytes cs)
         | _ \<Rightarrow> c # unquote_to_bytes cs)
      else c # unquote_to_bytes cs)"

definition continuation :: "nat \<Rightarrow> bool" where
  "continuation b = (128 \<le> b \<and> b \<le> 191)"

text \<open>
  The UTF-8 decoder, one unit at a time: \<open>Some\<close> code point for a well-formed sequence,
  \<open>None\<close> for each run of bytes the decoder reports as one error (an invalid start byte,
  the bytes before an invalid continuation byte, or a sequence cut off by the end).
\<close>

fun utf8_units :: "pybytes \<Rightarrow> nat option list" where
  "utf8_units [] = []"
| "utf8_units (b0 # bs) =
     (if b0 < 128 then Some b0 # utf8_units bs
      else if b0 < 194 then None # utf8_units bs
      else if b0 < 224 then
        (case bs of
           [] \<Rightarrow> [None]
         | b1 # r1 \<Rightarrow>
             if continuation b1 then Some ((b0 - 192) * 64 + (b1 - 128)) # utf8_units r1
             else None # utf8_units bs)
      else if b0 < 240 then
        (case bs of
           [] \<Rightarrow> [None]
         | b1 # r1 \<Rightarrow>
             if \<not> ((if b0 = 224 then 160 else 128) \<le> b1 \<and> b1 \<le> (if b0 = 237 then 159 else 191))
             then None # utf8_units bs
             else
               (case r1 of
                  [] \<Rightarrow> [None]
                | b2 # r2 \<Rightarrow>
                    if continuation b2
                    then Some ((b0 - 224) * 4096 + (b1 - 128) * 64 + (b2 - 128)) # utf8_units r2
                    else None # utf8_units r1))
      else if b0 < 245 then
        (case bs of
           [] \<Rightarrow> [None]
         | b1 # r1 \<Rightarrow>
             if \<not> ((if b0 = 240 then 144 else 128) \<le> b1 \<and> b1 \<le> (if b0 = 244 then 143 else 191))
             then None # utf8_units bs
             else
               (case r1 of
                  [] \<Rightarrow> [None]
                | b2 # r2 \<Rightarrow>
                    if \<not> continuation b2 then None # utf8_units r1
                    else
                      (case r2 of
                         [] \<Rightarrow> [None]
                       | b3 # r3 \<Rightarrow>
                           if continuation b3
                           then Some ((b0 - 240) * 262144 + (b1 - 128) * 4096
                                      + (b2 - 128) * 64 + (b3 - 128)) # utf8_units r3
                           else None # utf8_units r2)))
      else None # utf8_units bs)"

text \<open>\<^verbatim>\<open>bs.decode('utf-8', 'replace')\<close>: every error becomes U+FFFD.\<close>

definition utf8_decode_replace :: "pybytes \<Rightarrow> pystr" where
  "utf8_decode_replace bs = map (\<lambda>u. case u of None \<Rightarrow> 65533 | Some cp \<Rightarrow> cp) (utf8_units bs)"

text \<open>\<^verbatim>\<open>bs.decode('utf-8')\<close>: the first error raises \<^verbatim>\<open>UnicodeDecodeError\<close>.\<close>

definition utf8_decode :: "pybytes \<Rightarrow> error + pystr" where
  "utf8_decode bs =
     (if None \<in> set (utf8_units bs) then Inl UnicodeDecodeError
      else Inr (map the (utf8_units bs)))"

text \<open>
  \<^verbatim>\<open>unquote\<close> decodes each run of ASCII characters on its own and leaves the other
  characters as they are.
\<close>

fun unquote_runs :: "pystr \<Rightarrow> pystr \<Rightarrow> pystr" where
  "unquote_runs run [] = utf8_decode_replace (unquote_to_bytes run)"
| "unquote_runs run (c # cs) =
     (if c < 128 then unquote_runs (run @ [c]) cs
      else utf8_decode_replace (unquote_to_bytes run) @ c # unquote_runs [] cs)"

definition unquote :: "pystr \<Rightarrow> pystr" where
  "unquote s = (if 37 \<in> set s then unquote_runs [] s else s)"

text \<open>\<^verbatim>\<open>unquote_plus\<close>: a plus sign (43) is a space.\<close>

definition unquote_plus :: "pystr \<Rightarrow> pystr" where
  "unquote_plus s = unquote (map (\<lambda>c. if c = 43 then 32 else c) s)"

text \<open>\<^verbatim>\<open>s.split(c)\<close> for a one-character separator.\<close>

fun str_split :: "nat \<Rightarrow> pystr \<Rightarrow> pystr \<Rightarrow> pystr list" where
  "str_split c cur [] = [cur]"
| "str_split c cur (x # xs) =
     (if x = c then cur # str_split c [] xs else str_split c (cur @ [x]) xs)"

text \<open>
  One field of the query, as the loop of \<^verbatim>\<open>parse_qsl\<close> treats it with
  \<^verbatim>\<open>keep_blank_values\<close> and \<^verbatim>\<open>strict_parsing\<close> false: a field with no \<open>=\<close> (61) or
  with nothing after it is dropped.
\<close>

definition parse_field :: "pystr \<Rightarrow> (pystr \<times> pystr) list" where
  "parse_field name_value =
     (if name_value = [] then []
      else case str_partition 61 name_value of
             (name, Some val) \<Rightarrow> if val = [] then [] else [(unquote_plus name, unquote_plus val)]
           | (name, None) \<Rightarrow> [])"

definition parse_qsl :: "pystr \<Rightarrow> (pystr \<times> pystr) list" where
  "parse_qsl qs = (if qs = [] then [] else concat (map parse_field (str_split 38 [] qs)))"

text \<open>\<^verbatim>\<open>parse_qs\<close> collects the values of each name in the order they come.\<close>

definition add_value :: "(pystr \<rightharpoonup> pystr list) \<Rightarrow> pystr \<times> pystr \<Rightarrow> (pystr \<rightharpoonup> pystr list)" where
  "add_value parsed_result nv =
     (case parsed_result (fst nv) of
        Some vals \<Rightarrow> parsed_result(fst nv \<mapsto> vals @ [snd nv])
      | None \<Rightarrow> parsed_result(fst nv \<mapsto> [snd nv]))"

definition parse_qs :: "pystr \<Rightarrow> (pystr \<rightharpoonup> pystr list)" where
  "parse_qs qs = foldl add_value Map.empty (parse_qsl qs)"

subsection \<open>\<^verbatim>\<open>base64.urlsafe_b64decode\<close>\<close>

text \<open>The value of a character of the standard alphabet (\<open>A-Z a-z 0-9 + /\<close>).\<close>

definition b64_value :: "nat \<Rightarrow> nat option" where
  "b64_value c =
     (if 65 \<le> c \<and> c \<le> 90 then Some (c - 65)
      else if 97 \<le> c \<and> c \<le> 122 then Some (c - 71)
      else if 48 \<le> c \<and> c \<le> 57 then Some (c + 4)
      else if c = 43 then Some 62
      else if c = 47 then Some 63
      else None)"

text \<open>
  \<^verbatim>\<open>binascii.a2b_base64\<close> in its default, lenient mode. It walks the text with the
  position in the current group of four (\<open>quad_pos\<close>), the bits left over (\<open>leftchar\<close>)
  and the padding seen since the last data character (\<open>pads\<close>). A character outside the
  alphabet is skipped; padding that completes a group ends the decoding, whatever
  follows; padding elsewhere is skipped. At the end of the text a group left open is
  an error.
\<close>

fun a2b_base64 :: "nat \<Rightarrow> nat \<Rightarrow> nat \<Rightarrow> pybytes \<Rightarrow> pystr \<Rightarrow> error + pybytes" where
  "a2b_base64 quad_pos leftchar pads out [] =
     (if quad_pos \<noteq> 0 then Inl BinasciiError else Inr out)"
| "a2b_base64 quad_pos leftchar pads out (c # cs) =
     (if c = 61 then
        (if 2 \<le> quad_pos \<and> 4 \<le> quad_pos + (pads + 1) then Inr out
         else a2b_base64 quad_pos leftchar (if 2 \<le> quad_pos then pads + 1 else pads) out cs)
      else
        (case b64_value c of
           None \<Rightarrow> a2b_base64 quad_pos leftchar pads out cs
         | Some v \<Rightarrow>
             if quad_pos = 0 then a2b_base64 1 v 0 out cs
             else if quad_pos = 1 then
               a2b_base64 2 (v mod 16) 0 (out @ [leftchar * 4 + v div 16]) cs
             else if quad_pos = 2 then
               a2b_base64 3 (v mod 4) 0 (out @ [leftchar * 16 + v div 4]) cs
             else a2b_base64 0 0 0 (out @ [leftchar * 64 + v]) cs))"

text \<open>
  \<^verbatim>\<open>urlsafe_b64decode\<close> of a \<^verbatim>\<open>str\<close>: the text must be ASCII (\<^verbatim>\<open>ValueError\<close>
  otherwise), \<open>-\<close> and \<open>_\<close> (45, 95) stand for \<open>+\<close> and \<open>/\<close> (43, 47).
\<close>

definition urlsafe_translate :: "nat \<Rightarrow> nat" where
  "urlsafe_translate c = (if c = 45 then 43 else if c = 95 then 47 else c)"

definition urlsafe_b64decode :: "pystr \<Rightarrow> error + pybytes" where
  "urlsafe_b64decode s =
     (if list_ex (\<lambda>c. 128 \<le> c) s then Inl ValueError
      else a2b_base64 0 0 0 [] (map urlsafe_translate s))"

text \<open>
  The characters of the base64url alphabet, and those of the standard alphabet the
  decoder takes as well: letters, digits, \<open>+\<close>, \<open>/\<close>, \<open>-\<close> and \<open>_\<close>.
\<close>

definition b64url_char :: "nat \<Rightarrow> bool" where
  "b64url_char c = (is_alpha c \<or> is_digit c \<or> c = 43 \<or> c = 47 \<or> c = 45 \<or> c = 95)"

subsection \<open>\<^verbatim>\<open>json.loads\<close>\<close>

text \<open>
  The decoder is CPython's scanner (\<^verbatim>\<open>_json\<close>, with \<^verbatim>\<open>strict\<close> true): white space is
  space, tab, newline and carriage return; each function returns the value it read and
  the text after it, or \<open>None\<close> where the scanner gives up and \<^verbatim>\<open>json.loads\<close> raises
  \<^verbatim>\<open>JSONDecodeError\<close>.
\<close>

definition is_ws :: "nat \<Rightarrow> bool" where
  "is_ws c = (c = 32 \<or> c = 9 \<or> c = 10 \<or> c = 13)"

definition skip_ws :: "pystr \<Rightarrow> pystr" where
  "skip_ws s = dropWhile is_ws s"

definition hex4 :: "pystr \<Rightarrow> nat option" where
  "hex4 s =
     (case s of
        a # b # c # d # r \<Rightarrow>
          (case hexval a of None \<Rightarrow> None | Some w \<Rightarrow>
          (case hexval b of None \<Rightarrow> None | Some x \<Rightarrow>
          (case hexval c of None \<Rightarrow> None | Some y \<Rightarrow>
          (case hexval d of None \<Rightarrow> None | Some z \<Rightarrow>
             Some (((w * 16 + x) * 16 + y) * 16 + z)))))
      | _ \<Rightarrow> None)"

text \<open>The character after a backslash: \<open>" \ / b f n r t\<close>.\<close>

definition escape_char :: "nat \<Rightarrow> nat option" where
  "escape_char e =
     (if e = 34 then Some 34
      else if e = 92 then Some 92
      else if e = 47 then Some 47
      else if e = 98 then Some 8
      else if e = 102 then Some 12
      else if e = 110 then Some 10
      else if e = 114 then Some 13
      else if e = 116 then Some 9
      else None)"

text \<open>
  \<^verbatim>\<open>scanstring\<close>, from the character after the opening quote to the closing quote
  (34). A backslash (92) starts an escape; \<open>\u\<close> (117) takes four hex digits, and a high
  surrogate followed by an escaped low surrogate is one code point. A control
  character is refused.
\<close>

function scanstring :: "pystr \<Rightarrow> pystr \<Rightarrow> (pystr \<times> pystr) option" where
  "scanstring acc [] = None"
| "scanstring acc (c # cs) =
     (if c = 34 then Some (acc, cs)
      else if c = 92 then
        (case cs of
           [] \<Rightarrow> None
         | e # r \<Rightarrow>
             if e = 117 then
               (case hex4 r of
                  None \<Rightarrow> None
                | Some u \<Rightarrow>
                    (case (if 55296 \<le> u \<and> u \<le> 56319 \<and> take 2 (drop 4 r) = [92, 117]
                           then hex4 (drop 6 r) else None) of
                       Some u2 \<Rightarrow>
                         if 56320 \<le> u2 \<and> u2 \<le> 57343
                         then scanstring (acc @ [65536 + (u - 55296) * 1024 + (u2 - 56320)])
                                (drop 10 r)
                         else scanstring (acc @ [u]) (drop 4 r)
                     | None \<Rightarrow> scanstring (acc @ [u]) (drop 4 r)))
             else
               (case escape_char e of
                  None \<Rightarrow> None
                | Some x \<Rightarrow> scanstring (acc @ [x]) r))
      else if c < 32 then None
      else scanstring (acc @ [c]) cs)"
  by pat_completeness auto
termination
  by (relation "measure (\<lambda>(acc, s). length s)") auto

definition digits_value :: "pystr \<Rightarrow> nat" where
  "digits_value ds = foldl (\<lambda>n d. n * 10 + (d - 48)) 0 ds"

text \<open>
  A number: an optional minus (45), then \<open>0\<close> or a non-zero digit and more digits, then
  an optional fraction (a point, 46, and at least one digit) and an optional exponent
  (\<open>e\<close> or \<open>E\<close>, 101 or 69, an optional sign and at least one digit; without a digit
  the scanner steps back before the \<open>e\<close>). With neither fraction nor exponent it is an
  \<^verbatim>\<open>int\<close>, otherwise a \<^verbatim>\<open>float\<close>. Each part returns its text and what follows it.
\<close>

definition int_digits :: "pystr \<Rightarrow> (pystr \<times> pystr) option" where
  "int_digits r =
     (if r = [] \<or> \<not> is_digit (hd r) then None
      else if hd r = 48 then Some ([48], tl r)
      else Some (takeWhile is_digit r, dropWhile is_digit r))"

definition fraction :: "pystr \<Rightarrow> pystr \<times> pystr" where
  "fraction r =
     (if take 1 r = [46] \<and> take 1 (drop 1 r) \<noteq> [] \<and> is_digit (hd (drop 1 r))
      then (46 # takeWhile is_digit (drop 1 r), dropWhile is_digit (drop 1 r))
      else ([], r))"

definition exponent :: "pystr \<Rightarrow> pystr \<times> pystr" where
  "exponent r =
     (let sign = (if take 1 (drop 1 r) = [43] \<or> take 1 (drop 1 r) = [45]
                  then take 1 (drop 1 r) else [])
      in if (take 1 r = [101] \<or> take 1 r = [69])
            \<and> takeWhile is_digit (drop (1 + length sign) r) \<noteq> []
         then (take 1 r @ sign @ takeWhile is_digit (drop (1 + length sign) r),
               dropWhile is_digit (drop (1 + length sign) r))
         else ([], r))"

definition match_number :: "pystr \<Rightarrow> (pyval \<times> pystr) option" where
  "match_number s =
     (let neg = (take 1 s = [45]) in
      case int_digits (if neg then drop 1 s else s) of
        None \<Rightarrow> None
      | Some (ds, r1) \<Rightarrow>
          (case fraction r1 of
             (frac, r2) \<Rightarrow>
               (case exponent r2 of
                  (ex, r3) \<Rightarrow>
                    if frac = [] \<and> ex = []
                    then Some (PInt (if neg then - int (digits_value ds)
                                     else int (digits_value ds)), r3)
                    else Some (PFloat ((if neg then [45] else []) @ ds @ frac @ ex), r3))))"

text \<open>Storing an item in a dict: a key already there keeps its place and takes the new value.\<close>

definition dict_set :: "(pystr \<times> pyval) list \<Rightarrow> pystr \<Rightarrow> pyval \<Rightarrow> (pystr \<times> pyval) list" where
  "dict_set d k v =
     (if k \<in> fst ` set d then map (\<lambda>kv. if fst kv = k then (k, v) else kv) d
      else d @ [(k, v)])"

definition starts_with :: "pystr \<Rightarrow> pystr \<Rightarrow> bool" where
  "starts_with p s = (take (length p) s = p)"

lemma scanstring_shorter:
  "scanstring acc s = Some (str, rest) \<Longrightarrow> length rest < length s"
proof (induction acc s rule: scanstring.induct)
  case (1 acc)
  then show ?case by simp
next
  case (2 acc c cs)
  note prem = "2.prems"
  show ?case
  proof (cases "c = 34")
    case True
    with prem show ?thesis by simp
  next
    case q: False
    show ?thesis
    proof (cases "c = 92")
      case False
      with q "2.IH"(5)[OF q False] prem show ?thesis
        by (auto split: if_splits)
    next
      case bs: True
      show ?thesis
      proof (cases cs)
        case Nil
        with q bs prem show ?thesis by simp
      next
        case (Cons e r)
        show ?thesis
        proof (cases "e = 117")
          case False
          with q bs Cons prem "2.IH"(4)[OF q bs Cons False] show ?thesis
            by (auto split: option.splits)
        next
          case u: True
          then obtain x where hx: "hex4 r = Some x"
            using q bs Cons prem by (auto split: option.splits)
          note ih1 = "2.IH"(1)[OF q bs Cons u hx]
          note ih2 = "2.IH"(2)[OF q bs Cons u hx]
          note ih3 = "2.IH"(3)[OF q bs Cons u hx]
          from q bs Cons u hx prem ih1 ih2 ih3 show ?thesis
            by (auto split: option.splits if_splits)
        qed
      qed
    qed
  qed
qed

text \<open>
  \<^verbatim>\<open>scan_once\<close> reads one value; \<open>parse_elems\<close> is the loop of the array parser and
  \<open>parse_members\<close> the loop of the object parser, each entered after the opening bracket
  and the white space behind it. Both loops go on from the text a value left over, which
  is shorter than the text the value was read from: the test that says so is always true
  (lemma \<open>scan_shorter\<close>), and without it the loops are the same functions (lemmas
  \<open>parse_elems_loop\<close> and \<open>parse_members_loop\<close>).
\<close>

function scan_once :: "pystr \<Rightarrow> (pyval \<times> pystr) option"
  and parse_elems :: "pyval list \<Rightarrow> pystr \<Rightarrow> (pyval \<times> pystr) option"
  and parse_members :: "(pystr \<times> pyval) list \<Rightarrow> pystr \<Rightarrow> (pyval \<times> pystr) option"
where
  "scan_once [] = None"
| "scan_once (c # cs) =
     (if c = 34 then
        (case scanstring [] cs of
           None \<Rightarrow> None
         | Some (str, rest) \<Rightarrow> Some (PStr str, rest))
      else if c = 123 then
        (if take 1 (skip_ws cs) = [125] then Some (PDict [], drop 1 (skip_ws cs))
         else parse_members [] (skip_ws cs))
      else if c = 91 then
        (if take 1 (skip_ws cs) = [93] then Some (PList [], drop 1 (skip_ws cs))
         else parse_elems [] (skip_ws cs))
      else if starts_with (asc ''null'') (c # cs) then Some (PNone, drop 4 (c # cs))
      else if starts_with (asc ''true'') (c # cs) then Some (PBool True, drop 4 (c # cs))
      else if starts_with (asc ''false'') (c # cs) then Some (PBool False, drop 5 (c # cs))
      else if starts_with (asc ''NaN'') (c # cs) then Some (PFloat (asc ''NaN''), drop 3 (c # cs))
      else if starts_with (asc ''Infinity'') (c # cs)
        then Some (PFloat (asc ''Infinity''), drop 8 (c # cs))
      else if starts_with (asc ''-Infinity'') (c # cs)
        then Some (PFloat (asc ''-Infinity''), drop 9 (c # cs))
      else match_number (c # cs))"
| "parse_elems acc s =
     (case scan_once s of
        None \<Rightarrow> None
      | Some (v, rest) \<Rightarrow>
          if length rest < length s then
            (if take 1 (skip_ws rest) = [93]
             then Some (PList (acc @ [v]), drop 1 (skip_ws rest))
             else if take 1 (skip_ws rest) = [44]
             then parse_elems (acc @ [v]) (skip_ws (drop 1 (skip_ws rest)))
             else None)
          else None)"
| "parse_members acc s =
     (if take 1 s \<noteq> [34] then None
      else
        (case scanstring [] (drop 1 s) of
           None \<Rightarrow> None
         | Some (key, rest) \<Rightarrow>
             if take 1 (skip_ws rest) \<noteq> [58] then None
             else
               (case scan_once (skip_ws (drop 1 (skip_ws rest))) of
                  None \<Rightarrow> None
                | Some (v, rest') \<Rightarrow>
                    if length rest' < length s then
                      (if take 1 (skip_ws rest') = [125]
                       then Some (PDict (dict_set acc key v), drop 1 (skip_ws rest'))
                       else if take 1 (skip_ws rest') = [44]
                       then parse_members (dict_set acc key v) (skip_ws (drop 1 (skip_ws rest')))
                       else None)
                    else None)))"
  by pat_completeness auto
termination
proof (relation "measure (\<lambda>x. case x of
          Inl s \<Rightarrow> 2 * length s
        | Inr (Inl (acc, s)) \<Rightarrow> 2 * length s + 1
        | Inr (Inr (acc, s)) \<Rightarrow> 2 * length s + 1)", goal_cases)
  case 1
  show ?case by simp
next
  case (2 c cs)
  have "length (skip_ws cs) \<le> length cs"
    by (simp add: skip_ws_def length_dropWhile_le)
  then show ?case by simp
next
  case (3 c cs)
  have "length (skip_ws cs) \<le> length cs"
    by (simp add: skip_ws_def length_dropWhile_le)
  then show ?case by simp
next
  case (4 acc s)
  show ?case by simp
next
  case (5 acc s x2 v rest)
  have "length (skip_ws (drop 1 (skip_ws rest))) \<le> length (drop 1 (skip_ws rest))"
    by (simp only: skip_ws_def length_dropWhile_le)
  moreover have "length (skip_ws rest) \<le> length rest"
    by (simp add: skip_ws_def length_dropWhile_le)
  ultimately show ?case using 5 by simp
next
  case (6 acc s x2 key rest)
  have a: "length (skip_ws (drop 1 (skip_ws rest))) \<le> length (drop 1 (skip_ws rest))"
    by (simp only: skip_ws_def length_dropWhile_le)
  have b: "length (skip_ws rest) \<le> length rest"
    by (simp add: skip_ws_def length_dropWhile_le)
  have "length rest < length (drop 1 s)"
    using 6 scanstring_shorter by metis
  then show ?case using a b by simp
next
  case (7 acc s x2 key rest x2a v rest')
  have "length (skip_ws (drop 1 (skip_ws rest'))) \<le> length (drop 1 (skip_ws rest'))"
    by (simp only: skip_ws_def length_dropWhile_le)
  moreover have "length (skip_ws rest') \<le> length rest'"
    by (simp add: skip_ws_def length_dropWhile_le)
  ultimately show ?case using 7 by simp
qed

text \<open>
  \<^verbatim>\<open>json.loads\<close> of a \<^verbatim>\<open>str\<close>: white space, one value, white space, and nothing
  else. (A leading byte order mark is refused by a test of its own; the scanner refuses
  it as well.)
\<close>

definition json_loads :: "pystr \<Rightarrow> error + pyval" where
  "json_loads s =
     (case scan_once (skip_ws s) of
        None \<Rightarrow> Inl JSONDecodeError
      | Some (v, rest) \<Rightarrow> if skip_ws rest = [] then Inr v else Inl JSONDecodeError)"

subsection \<open>What the handler prints\<close>

text \<open>
  A printed line is an f-string: literal text and replacement fields. A field holds the
  value that is formatted, so that a line says what is printed without fixing how Python
  writes a float or a container; \<open>FmtErr\<close> is the field \<^verbatim>\<open>{e}\<close> of the failure notice,
  the description of the exception. The effects of the handler are the lines it prints
  and the call \<^verbatim>\<open>super().do_GET()\<close>, which reads the path of the request.
\<close>

datatype piece = Lit pystr | Fmt pyval | FmtErr error

type_synonym line = "piece list"

datatype effect = Print line | SuperGet string

text \<open>Line 42: \<^verbatim>\<open>padded = event_data + '=' * (4 - len(event_data) % 4)\<close> (61 is \<open>=\<close>).\<close>

definition padded :: "pystr \<Rightarrow> pystr" where
  "padded event_data = event_data @ replicate (4 - length event_data mod 4) 61"

text \<open>Lines 42 to 45: base64url, then UTF-8, then JSON; the first failure is the result.\<close>

definition decode_event :: "pystr \<Rightarrow> error + pyval" where
  "decode_event event_data =
     (case urlsafe_b64decode (padded event_data) of
        Inl e \<Rightarrow> Inl e
      | Inr decoded_bytes \<Rightarrow>
          (case utf8_decode decoded_bytes of
             Inl e \<Rightarrow> Inl e
           | Inr event_json \<Rightarrow> json_loads event_json))"

text \<open>\<^verbatim>\<open>event.get(key, dflt)\<close>: only a dict has the method.\<close>

definition event_get :: "pyval \<Rightarrow> pystr \<Rightarrow> pyval \<Rightarrow> error + pyval" where
  "event_get event key dflt =
     (case event of
        PDict items \<Rightarrow> Inr (case map_of items key of Some v \<Rightarrow> v | None \<Rightarrow> dflt)
      | _ \<Rightarrow> Inl AttributeError)"

text \<open>\<^verbatim>\<open>v[:n]\<close>: a string and a list can be sliced, nothing else JSON gives.\<close>

definition py_slice :: "nat \<Rightarrow> pyval \<Rightarrow> error + pyval" where
  "py_slice n v =
     (case v of
        PStr s \<Rightarrow> Inr (PStr (take n s))
      | PList xs \<Rightarrow> Inr (PList (take n xs))
      | _ \<Rightarrow> Inl TypeError)"

definition py_len :: "pyval \<Rightarrow> error + nat" where
  "py_len v =
     (case v of
        PStr s \<Rightarrow> Inr (length s)
      | PList xs \<Rightarrow> Inr (length xs)
      | PDict items \<Rightarrow> Inr (length items)
      | _ \<Rightarrow> Inl TypeError)"

definition unknown :: "pyval" where
  "unknown = PStr (asc ''unknown'')"

definition ellipsis :: "pystr" where
  "ellipsis = asc ''...''"

text \<open>Line 48.\<close>

definition kind_line :: "pyval \<Rightarrow> error + line" where
  "kind_line event =
     (case event_get event (asc ''kind'') unknown of
        Inl e \<Rightarrow> Inl e
      | Inr v \<Rightarrow> Inr [Lit (asc ''   Kind: ''), Fmt v])"

text \<open>Line 49: the ellipsis is part of the literal text.\<close>

definition author_line :: "pyval \<Rightarrow> error + line" where
  "author_line event =
     (case event_get event (asc ''pubkey'') unknown of
        Inl e \<Rightarrow> Inl e
      | Inr v \<Rightarrow>
          (case py_slice 16 v of
             Inl e \<Rightarrow> Inl e
           | Inr preview \<Rightarrow> Inr [Lit (asc ''   Author: ''), Fmt preview, Lit ellipsis]))"

text \<open>Line 50: the second field is the ellipsis when the content is longer than 100.\<close>

definition content_line :: "pyval \<Rightarrow> error + line" where
  "content_line event =
     (case event_get event (asc ''content'') (PStr []) of
        Inl e \<Rightarrow> Inl e
      | Inr v \<Rightarrow>
          (case py_slice 100 v of
             Inl e \<Rightarrow> Inl e
           | Inr preview \<Rightarrow>
               (case event_get event (asc ''content'') (PStr []) of
                  Inl e \<Rightarrow> Inl e
                | Inr w \<Rightarrow>
                    (case py_len w of
                       Inl e \<Rightarrow> Inl e
                     | Inr n \<Rightarrow>
                         Inr [Lit (asc ''   Content: ''), Fmt preview,
                              Fmt (PStr (if 100 < n then ellipsis else []))]))))"

text \<open>Line 51.\<close>

definition created_line :: "pyval \<Rightarrow> error + line" where
  "created_line event =
     (case event_get event (asc ''created_at'') unknown of
        Inl e \<Rightarrow> Inl e
      | Inr v \<Rightarrow> Inr [Lit (asc ''   Created: ''), Fmt v])"

text \<open>
  One \<^verbatim>\<open>print\<close> statement after the lines printed so far: when evaluating its
  f-string raises, nothing is printed and the exception ends the block.
\<close>

definition then_print :: "line list \<times> error option \<Rightarrow> error + line \<Rightarrow> line list \<times> error option" where
  "then_print st stmt =
     (case st of
        (ls, Some e) \<Rightarrow> (ls, Some e)
      | (ls, None) \<Rightarrow>
          (case stmt of
             Inl e \<Rightarrow> (ls, Some e)
           | Inr l \<Rightarrow> (ls @ [l], None)))"

text \<open>Line 47 (9989 is the check mark).\<close>

definition decoded_line :: "line" where
  "decoded_line = [Lit (9989 # asc '' Event decoded successfully:'')]"

text \<open>Lines 47 to 51.\<close>

definition print_event :: "pyval \<Rightarrow> line list \<times> error option" where
  "print_event event =
     then_print
       (then_print
          (then_print
             (then_print ([decoded_line], None) (kind_line event))
             (author_line event))
          (content_line event))
       (created_line event)"

text \<open>Line 54 (10060 is the cross mark).\<close>

definition error_line :: "error \<Rightarrow> line" where
  "error_line e = [Lit (10060 # asc '' Error decoding event: ''), FmtErr e]"

text \<open>
  Lines 37 to 54: the \<^verbatim>\<open>try\<close> block and its handler. \<^verbatim>\<open>except Exception\<close> catches
  every exception of the block; the handler prints the failure notice and the statement
  ends normally.
\<close>

definition try_decode :: "pystr \<Rightarrow> line list" where
  "try_decode event_data =
     (case decode_event event_data of
        Inl e \<Rightarrow> [error_line e]
      | Inr event \<Rightarrow>
          (case print_event event of
             (ls, None) \<Rightarrow> ls
           | (ls, Some e) \<Rightarrow> ls @ [error_line e]))"

text \<open>Line 28 (127919 is the target sign).\<close>

definition id_line :: "pystr \<Rightarrow> line" where
  "id_line event_id = [Lit (127919 # asc '' Event ID: ''), Fmt (PStr event_id)]"

text \<open>Line 30 (128230 is the package sign).\<close>

definition data_line :: "pystr \<Rightarrow> line" where
  "data_line event_data =
     [Lit (128230 # asc '' Event Data: ''), Fmt (PStr (take 50 event_data)),
      Fmt (PStr (if 50 < length event_data then ellipsis else []))]"

text \<open>Line 31 (128207 is the ruler sign).\<close>

definition size_line :: "pystr \<Rightarrow> line" where
  "size_line event_data =
     [Lit (128207 # asc '' Event Data Size: ''), Fmt (PInt (int (length event_data))),
      Lit (asc '' characters'')]"

text \<open>Line 33 (8505 and 65039 are the information sign).\<close>

definition note_line :: "line" where
  "note_line = [Lit (8505 # 65039 # asc ''  Event data not included (likely > 500KB)'')]"

text \<open>The subscript \<^verbatim>\<open>[0]\<close> of lines 25 and 26; an empty list has no item to give.\<close>

definition item0 :: "'a list \<Rightarrow> error + 'a" where
  "item0 values = (case values of v # rest \<Rightarrow> Inr v | [] \<Rightarrow> Inl IndexError)"

text \<open>Python's truth value of \<^verbatim>\<open>event_data\<close>: \<^verbatim>\<open>None\<close> and the empty string are false.\<close>

definition truthy :: "pystr option \<Rightarrow> bool" where
  "truthy event_data = (case event_data of None \<Rightarrow> False | Some d \<Rightarrow> d \<noteq> [])"

text \<open>
  Lines 24 to 54, on the mapping \<^verbatim>\<open>parse_qs\<close> returned. \<^verbatim>\<open>query_params.get('event',
  [None])[0]\<close> is \<^verbatim>\<open>None\<close> when the key is absent.
\<close>

definition log_event :: "(pystr \<rightharpoonup> pystr list) \<Rightarrow> line list \<times> error option" where
  "log_event query_params =
     (case query_params (asc ''id'') of
        None \<Rightarrow> ([], None)
      | Some ids \<Rightarrow>
          (case item0 ids of
             Inl e \<Rightarrow> ([], Some e)
           | Inr event_id \<Rightarrow>
               (case (case query_params (asc ''event'') of
                        None \<Rightarrow> Inr None
                      | Some events \<Rightarrow> map_sum id Some (item0 events)) of
                  Inl e \<Rightarrow> ([], Some e)
                | Inr event_data \<Rightarrow>
                    ([id_line event_id]
                     @ (if truthy event_data
                        then [data_line (the event_data), size_line (the event_data)]
                        else [note_line])
                     @ (if truthy event_data then try_decode (the event_data) else []),
                     None))))"

text \<open>Line 21 (10 is the newline, 128232 the envelope sign).\<close>

definition request_line :: "string \<Rightarrow> line" where
  "request_line path = [Lit (10 # 128232 # asc '' Request: ''), Fmt (PStr (asc path))]"

text \<open>
  \<^verbatim>\<open>do_GET\<close>, lines 17 to 57: the effects in order, and the exception that leaves the
  handler, if any. An exception of \<^verbatim>\<open>urlparse\<close> leaves it before anything is printed.
\<close>

definition do_GET :: "(pystr \<Rightarrow> bool) \<Rightarrow> string \<Rightarrow> effect list \<times> error option" where
  "do_GET check_bracketed_host path =
     (case urlparse_query check_bracketed_host (asc path) of
        Inl e \<Rightarrow> ([], Some e)
      | Inr query \<Rightarrow>
          (case log_event (parse_qs query) of
             (ls, Some e) \<Rightarrow> (Print (request_line path) # map Print ls, Some e)
           | (ls, None) \<Rightarrow> (Print (request_line path) # map Print ls @ [SuperGet path], None)))"

subsection \<open>The text of a line\<close>

text \<open>
  \<^verbatim>\<open>str()\<close> of the values whose text needs no float and no \<^verbatim>\<open>repr\<close>: a string is
  itself, an integer its decimal digits.
\<close>

function digits :: "nat \<Rightarrow> pystr" where
  "digits n = (if n < 10 then [48 + n] else digits (n div 10) @ [48 + n mod 10])"
  by pat_completeness auto
termination
  by (relation "measure id") auto

definition py_str :: "pyval \<Rightarrow> pystr option" where
  "py_str v =
     (case v of
        PStr s \<Rightarrow> Some s
      | PInt i \<Rightarrow> Some (if i < 0 then 45 # digits (nat (- i)) else digits (nat i))
      | PNone \<Rightarrow> Some (asc ''None'')
      | PBool b \<Rightarrow> Some (if b then asc ''True'' else asc ''False'')
      | _ \<Rightarrow> None)"

fun render :: "line \<Rightarrow> pystr option" where
  "render [] = Some []"
| "render (Lit s # ps) = map_option (\<lambda>r. s @ r) (render ps)"
| "render (Fmt v # ps) =
     (case py_str v of
        None \<Rightarrow> None
      | Some s \<Rightarrow> map_option (\<lambda>r. s @ r) (render ps))"
| "render (FmtErr e # ps) = None"

subsection \<open>Event values used as examples\<close>

text \<open>
  The payload of the specification as JSON text, and its base64url encoding without
  padding as a client puts it in the \<open>event\<close> parameter.
\<close>

definition spec_json :: "string" where
  \<open>spec_json =
     ''{"kind":1,"pubkey":"abcd1234abcd1234extra","content":"hello",'' @
     ''"created_at":1700000000}''\<close>

definition spec_event :: "string" where
  "spec_event =
     ''eyJraW5kIjoxLCJwdWJrZXkiOiJhYmNkMTIzNGFiY2QxMjM0ZXh0cmEiLCJjb250ZW50IjoiaGVs'' @
     ''bG8iLCJjcmVhdGVkX2F0IjoxNzAwMDAwMDAwfQ''"

text \<open>An object whose content has 101 characters, and its encoding.\<close>

definition long_content :: "string" where
  "long_content =
     ''abcdefghijklmnopqrstuvwxyzabcdefghijklmnopqrstuvwxyzabcdefghijklmnopqrstuvwx'' @
     ''yzabcdefghijklmnopqrstuvw''"

definition long_event :: "string" where
  "long_event =
     ''eyJjb250ZW50IjoiYWJjZGVmZ2hpamtsbW5vcHFyc3R1dnd4eXphYmNkZWZnaGlqa2xtbm9wcXJz'' @
     ''dHV2d3h5emFiY2RlZmdoaWprbG1ub3BxcnN0dXZ3eHl6YWJjZGVmZ2hpamtsbW5vcHFyc3R1dnci'' @
     ''fQ''"

section \<open>Evaluation and auxiliary facts\<close>

lemma replicate_pad:
  "replicate 1 x = [x]" "replicate 2 x = [x, x]" "replicate 3 x = [x, x, x]"
  "replicate 4 x = [x, x, x, x]"
  by (simp_all add: numeral_eq_Suc)

lemmas url_eval = urlparse_query_def strip_scheme_def str_partition_def netloc_char_def
  is_alpha_def is_digit_def scheme_char_def Let_def

lemmas qs_eval = parse_qs_def parse_qsl_def parse_field_def str_partition_def unquote_plus_def
  unquote_def add_value_def

lemmas decode_eval = decode_event_def padded_def replicate_pad urlsafe_b64decode_def
  urlsafe_translate_def b64_value_def utf8_decode_def continuation_def json_loads_def
  skip_ws_def is_ws_def starts_with_def match_number_def int_digits_def fraction_def
  exponent_def is_digit_def digits_value_def dict_set_def hex4_def hexval_def escape_char_def
  Let_def

lemmas print_eval = print_event_def then_print_def kind_line_def author_line_def
  content_line_def created_line_def event_get_def py_slice_def py_len_def unknown_def
  ellipsis_def

lemmas example_defs = spec_json_def spec_event_def long_content_def long_event_def

subsection \<open>The JSON scanner consumes its input\<close>

lemma dropWhile_head_shorter: "xs \<noteq> [] \<Longrightarrow> P (hd xs) \<Longrightarrow> length (dropWhile P xs) < length xs"
  by (cases xs) (simp_all add: less_Suc_eq_le length_dropWhile_le)

lemma skip_ws_le: "length (skip_ws s) \<le> length s"
  by (simp add: skip_ws_def length_dropWhile_le)

lemma int_digits_shorter: "int_digits r = Some (ds, r1) \<Longrightarrow> length r1 < length r"
  by (cases r) (auto simp: int_digits_def less_Suc_eq_le length_dropWhile_le split: if_splits)

lemma fraction_le: "fraction r = (frac, r2) \<Longrightarrow> length r2 \<le> length r"
  using length_dropWhile_le[of is_digit "drop 1 r"]
  by (auto simp: fraction_def split: if_splits)

lemma exponent_le: "exponent r = (ex, r3) \<Longrightarrow> length r3 \<le> length r"
proof -
  have "length (dropWhile is_digit (drop n r)) \<le> length r" for n
    using length_dropWhile_le[of is_digit "drop n r"] by simp
  then show "exponent r = (ex, r3) \<Longrightarrow> length r3 \<le> length r"
    by (auto simp: exponent_def Let_def split: if_splits)
qed

lemma match_number_shorter:
  assumes "match_number s = Some (v, rest)"
  shows "length rest < length s"
proof -
  from assms obtain ds r1 where i: "int_digits (if take 1 s = [45] then drop 1 s else s) = Some (ds, r1)"
    by (auto simp: match_number_def Let_def split: option.splits)
  obtain frac r2 where f: "fraction r1 = (frac, r2)"
    by (cases "fraction r1")
  obtain ex r3 where e: "exponent r2 = (ex, r3)"
    by (cases "exponent r2")
  from assms i f e have "rest = r3"
    by (auto simp: match_number_def Let_def split: if_splits)
  moreover have "length r1 < length s"
    using int_digits_shorter[OF i] by (auto split: if_splits)
  ultimately show ?thesis
    using fraction_le[OF f] exponent_le[OF e] by simp
qed

lemma scan_shorter:
  "scan_once s = Some (v, rest) \<Longrightarrow> length rest < length s"
  "parse_elems acc s = Some (v, rest) \<Longrightarrow> length rest < length s"
  "parse_members items s = Some (v, rest) \<Longrightarrow> length rest < length s"
proof (induction s and acc s and items s arbitrary: v rest and v rest and v rest
    rule: scan_once_parse_elems_parse_members.induct)
  case 1
  then show ?case by simp
next
  case (2 c cs)
  note prem = "2.prems"
  consider (str) "c = 34" | (obj) "c \<noteq> 34" "c = 123" | (arr) "c \<noteq> 34" "c \<noteq> 123" "c = 91"
    | (other) "c \<noteq> 34" "c \<noteq> 123" "c \<noteq> 91"
    by blast
  then show ?case
  proof cases
    case str
    with prem obtain x where "scanstring [] cs = Some (x, rest)"
      by (auto split: option.splits)
    from scanstring_shorter[OF this] show ?thesis by simp
  next
    case obj
    show ?thesis
    proof (cases "take 1 (skip_ws cs) = [125]")
      case True
      with obj prem have "rest = drop 1 (skip_ws cs)" by simp
      then show ?thesis using skip_ws_le[of cs] by simp
    next
      case False
      with obj prem have "parse_members [] (skip_ws cs) = Some (v, rest)" by simp
      from "2.IH"(1)[OF obj False this] show ?thesis using skip_ws_le[of cs] by simp
    qed
  next
    case arr
    show ?thesis
    proof (cases "take 1 (skip_ws cs) = [93]")
      case True
      with arr prem have "rest = drop 1 (skip_ws cs)" by simp
      then show ?thesis using skip_ws_le[of cs] by simp
    next
      case False
      with arr prem have "parse_elems [] (skip_ws cs) = Some (v, rest)" by simp
      from "2.IH"(2)[OF arr False this] show ?thesis using skip_ws_le[of cs] by simp
    qed
  next
    case other
    with prem have "(\<exists>n. 0 < n \<and> rest = drop n (c # cs)) \<or> match_number (c # cs) = Some (v, rest)"
      by (auto split: if_splits)
    then show ?thesis
    proof
      assume "\<exists>n. 0 < n \<and> rest = drop n (c # cs)"
      then show ?thesis by auto
    next
      assume "match_number (c # cs) = Some (v, rest)"
      from match_number_shorter[OF this] show ?thesis .
    qed
  qed
next
  case (3 acc s)
  from "3.prems" obtain v0 rest0 where first: "scan_once s = Some (v0, rest0)"
    by (auto split: option.splits)
  with "3.prems" have guard: "length rest0 < length s"
    by (auto split: if_splits)
  show ?case
  proof (cases "take 1 (skip_ws rest0) = [93]")
    case True
    with "3.prems" first guard have "rest = drop 1 (skip_ws rest0)" by simp
    then show ?thesis using skip_ws_le[of rest0] guard by simp
  next
    case False
    with "3.prems" first guard have comma: "take 1 (skip_ws rest0) = [44]"
      and more: "parse_elems (acc @ [v0]) (skip_ws (drop 1 (skip_ws rest0))) = Some (v, rest)"
      by (auto split: if_splits)
    from "3.IH"(2)[OF first refl guard False comma more]
    show ?thesis
      using skip_ws_le[of "drop 1 (skip_ws rest0)"] skip_ws_le[of rest0] guard by simp
  qed
next
  case (4 items s)
  from "4.prems" have quote: "take 1 s = [34]"
    by (auto split: if_splits)
  with "4.prems" obtain key rest0 where key: "scanstring [] (drop 1 s) = Some (key, rest0)"
    by (auto split: option.splits)
  with "4.prems" quote have colon: "take 1 (skip_ws rest0) = [58]"
    by (auto split: if_splits)
  with "4.prems" quote key obtain v1 rest1
    where val: "scan_once (skip_ws (drop 1 (skip_ws rest0))) = Some (v1, rest1)"
    by (auto split: option.splits)
  with "4.prems" quote key colon have guard: "length rest1 < length s"
    by (auto split: if_splits)
  show ?case
  proof (cases "take 1 (skip_ws rest1) = [125]")
    case True
    with "4.prems" quote key colon val guard have "rest = drop 1 (skip_ws rest1)" by simp
    then show ?thesis using skip_ws_le[of rest1] guard by simp
  next
    case False
    with "4.prems" quote key colon val guard have comma: "take 1 (skip_ws rest1) = [44]"
      and more: "parse_members (dict_set items key v1) (skip_ws (drop 1 (skip_ws rest1)))
                   = Some (v, rest)"
      by (auto split: if_splits)
    have q: "\<not> take 1 s \<noteq> [34]" using quote by simp
    have cl: "\<not> take 1 (skip_ws rest0) \<noteq> [58]" using colon by simp
    from "4.IH"(2)[OF q key refl cl val refl guard False comma more]
    show ?thesis
      using skip_ws_le[of "drop 1 (skip_ws rest1)"] skip_ws_le[of rest1] guard by simp
  qed
qed

text \<open>So the loops of the array and the object parser are those of the scanner.\<close>

lemma parse_elems_loop:
  "parse_elems acc s =
     (case scan_once s of
        None \<Rightarrow> None
      | Some (v, rest) \<Rightarrow>
          if take 1 (skip_ws rest) = [93]
          then Some (PList (acc @ [v]), drop 1 (skip_ws rest))
          else if take 1 (skip_ws rest) = [44]
          then parse_elems (acc @ [v]) (skip_ws (drop 1 (skip_ws rest)))
          else None)"
proof (cases "scan_once s")
  case None
  then show ?thesis by (subst parse_elems.simps) simp
next
  case (Some a)
  then obtain v rest where vr: "scan_once s = Some (v, rest)"
    by (cases a) auto
  from scan_shorter(1)[OF this] have "length rest < length s" .
  with vr show ?thesis
    by (subst parse_elems.simps) (simp only: option.case prod.case if_True)
qed

lemma parse_members_loop:
  "parse_members items s =
     (if take 1 s \<noteq> [34] then None
      else
        (case scanstring [] (drop 1 s) of
           None \<Rightarrow> None
         | Some (key, rest) \<Rightarrow>
             if take 1 (skip_ws rest) \<noteq> [58] then None
             else
               (case scan_once (skip_ws (drop 1 (skip_ws rest))) of
                  None \<Rightarrow> None
                | Some (v, rest') \<Rightarrow>
                    if take 1 (skip_ws rest') = [125]
                    then Some (PDict (dict_set items key v), drop 1 (skip_ws rest'))
                    else if take 1 (skip_ws rest') = [44]
                    then parse_members (dict_set items key v) (skip_ws (drop 1 (skip_ws rest')))
                    else None)))"
proof -
  have guard: "length rest' < length s"
    if "scanstring [] (drop (Suc 0) s) = Some (key, rest)"
      and "scan_once (skip_ws (drop (Suc 0) (skip_ws rest))) = Some (v, rest')"
    for key rest v rest'
  proof -
    have "length rest' < length (skip_ws (drop (Suc 0) (skip_ws rest)))"
      using scan_shorter(1)[OF that(2)] .
    also have "\<dots> \<le> length rest"
      using skip_ws_le[of "drop (Suc 0) (skip_ws rest)"] skip_ws_le[of rest] by simp
    also have "\<dots> < length s"
      using scanstring_shorter[OF that(1)] by simp
    finally show ?thesis .
  qed
  show ?thesis
    by (subst parse_members.simps)
       (auto split: option.splits simp del: parse_members.simps dest: guard)
qed

subsection \<open>The base64 decoder on data characters\<close>

lemma b64url_char_ascii: "b64url_char c \<Longrightarrow> c < 128"
  by (auto simp: b64url_char_def is_alpha_def is_digit_def)

lemma b64url_char_data:
  "b64url_char c \<Longrightarrow> urlsafe_translate c \<noteq> 61 \<and> b64_value (urlsafe_translate c) \<noteq> None"
  by (auto simp: b64url_char_def urlsafe_translate_def b64_value_def is_alpha_def is_digit_def)

text \<open>
  Data characters move the position in the group by one each, whatever follows them.
\<close>

lemma a2b_data_prefix:
  "quad_pos < 4 \<Longrightarrow> list_all (\<lambda>c. c \<noteq> 61 \<and> b64_value c \<noteq> None) xs \<Longrightarrow>
   \<exists>leftchar' pads' out'. \<forall>ys.
     a2b_base64 quad_pos leftchar pads out (xs @ ys)
       = a2b_base64 ((quad_pos + length xs) mod 4) leftchar' pads' out' ys"
proof (induction xs arbitrary: quad_pos leftchar pads out)
  case Nil
  then show ?case by auto
next
  case (Cons c xs)
  from Cons.prems(2) obtain v where v: "b64_value c = Some v" and c: "c \<noteq> 61"
    by auto
  from Cons.prems(2) have rest: "list_all (\<lambda>c. c \<noteq> 61 \<and> b64_value c \<noteq> None) xs"
    by simp
  consider "quad_pos = 0" | "quad_pos = 1" | "quad_pos = 2" | "quad_pos = 3"
    using Cons.prems(1) by linarith
  then show ?case
  proof cases
    case 1
    from Cons.IH[OF _ rest, of 1 v 0 out] 1 v c show ?thesis by simp
  next
    case 2
    from Cons.IH[OF _ rest, of 2 "v mod 16" 0 "out @ [leftchar * 4 + v div 16]"] 2 v c
    show ?thesis by simp
  next
    case 3
    from Cons.IH[OF _ rest, of 3 "v mod 4" 0 "out @ [leftchar * 16 + v div 4]"] 3 v c
    show ?thesis by simp
  next
    case 4
    from Cons.IH[OF _ rest, of 0 0 0 "out @ [leftchar * 64 + v]"] 4 v c
    show ?thesis by (simp add: mod_Suc)
  qed
qed

text \<open>
  When the data characters leave the position at one, the three padding characters
  behind them are skipped and the end of the text finds the group open.
\<close>

lemma a2b_open_group:
  assumes "list_all (\<lambda>c. c \<noteq> 61 \<and> b64_value c \<noteq> None) xs" and "length xs mod 4 = 1"
  shows "a2b_base64 0 0 0 [] (xs @ [61, 61, 61]) = Inl BinasciiError"
proof -
  from a2b_data_prefix[OF _ assms(1), of 0 0 0 "[]"] assms(2)
  obtain leftchar' pads' out' where
    "a2b_base64 0 0 0 [] (xs @ [61, 61, 61]) = a2b_base64 1 leftchar' pads' out' [61, 61, 61]"
    by auto
  then show ?thesis by simp
qed

text \<open>
  When they leave it at zero, four padding characters behind them are skipped and
  change nothing.
\<close>

lemma a2b_full_groups:
  assumes "list_all (\<lambda>c. c \<noteq> 61 \<and> b64_value c \<noteq> None) xs" and "length xs mod 4 = 0"
  shows "a2b_base64 0 0 0 [] (xs @ [61, 61, 61, 61]) = a2b_base64 0 0 0 [] xs"
proof -
  from a2b_data_prefix[OF _ assms(1), of 0 0 0 "[]"] assms(2)
  obtain leftchar' pads' out' where
    run: "\<forall>ys. a2b_base64 0 0 0 [] (xs @ ys) = a2b_base64 0 leftchar' pads' out' ys"
    by auto
  from run have "a2b_base64 0 0 0 [] (xs @ [61, 61, 61, 61]) = Inr out'"
    by simp
  moreover from run[rule_format, of "[]"] have "a2b_base64 0 0 0 [] xs = Inr out'"
    by simp
  ultimately show ?thesis by simp
qed

lemma urlsafe_data:
  assumes "list_all b64url_char s"
  shows "\<not> list_ex (\<lambda>c. 128 \<le> c) (s @ replicate n 61)"
    and "list_all (\<lambda>c. c \<noteq> 61 \<and> b64_value c \<noteq> None) (map urlsafe_translate s)"
    and "map urlsafe_translate (s @ replicate n 61) = map urlsafe_translate s @ replicate n 61"
proof -
  show "\<not> list_ex (\<lambda>c. 128 \<le> c) (s @ replicate n 61)"
    using assms b64url_char_ascii by (fastforce simp: list_ex_iff list_all_iff)
  show "list_all (\<lambda>c. c \<noteq> 61 \<and> b64_value c \<noteq> None) (map urlsafe_translate s)"
    using assms b64url_char_data by (simp add: list_all_iff)
  show "map urlsafe_translate (s @ replicate n 61) = map urlsafe_translate s @ replicate n 61"
    by (simp add: urlsafe_translate_def)
qed

lemma urlsafe_b64decode_open_group:
  assumes "list_all b64url_char s" and "length s mod 4 = 1"
  shows "urlsafe_b64decode (s @ [61, 61, 61]) = Inl BinasciiError"
proof -
  have "a2b_base64 0 0 0 [] (map urlsafe_translate s @ [61, 61, 61]) = Inl BinasciiError"
    by (rule a2b_open_group) (use urlsafe_data(2)[OF assms(1)] assms(2) in simp_all)
  with urlsafe_data(1,3)[OF assms(1), of 3] show ?thesis
    by (simp add: urlsafe_b64decode_def replicate_pad)
qed

lemma urlsafe_b64decode_full_groups:
  assumes "list_all b64url_char s" and "length s mod 4 = 0"
  shows "urlsafe_b64decode (s @ [61, 61, 61, 61]) = urlsafe_b64decode s"
proof -
  have "a2b_base64 0 0 0 [] (map urlsafe_translate s @ [61, 61, 61, 61])
          = a2b_base64 0 0 0 [] (map urlsafe_translate s)"
    by (rule a2b_full_groups) (use urlsafe_data(2)[OF assms(1)] assms(2) in simp_all)
  with urlsafe_data(1,3)[OF assms(1), of 4] urlsafe_data(1)[OF assms(1), of 0] show ?thesis
    by (simp add: urlsafe_b64decode_def replicate_pad)
qed

subsection \<open>The handler on a parsed query\<close>

lemma decode_event_stages:
  "decode_event d = Inl e \<longleftrightarrow>
     (urlsafe_b64decode (padded d) = Inl e
      \<or> (\<exists>bs. urlsafe_b64decode (padded d) = Inr bs \<and> utf8_decode bs = Inl e)
      \<or> (\<exists>bs txt. urlsafe_b64decode (padded d) = Inr bs \<and> utf8_decode bs = Inr txt
            \<and> json_loads txt = Inl e))"
  by (auto simp: decode_event_def split: sum.splits)

lemma log_event_no_id:
  "query_params (asc ''id'') = None \<Longrightarrow> log_event query_params = ([], None)"
  by (simp add: log_event_def)

lemma log_event_with_event:
  "query_params (asc ''id'') = Some (event_id # ids) \<Longrightarrow>
   query_params (asc ''event'') = Some (d # ds) \<Longrightarrow> d \<noteq> [] \<Longrightarrow>
   log_event query_params
     = (id_line event_id # data_line d # size_line d # try_decode d, None)"
  by (simp add: log_event_def item0_def truthy_def)

lemma log_event_without_event:
  "query_params (asc ''id'') = Some (event_id # ids) \<Longrightarrow>
   query_params (asc ''event'') = None \<or> query_params (asc ''event'') = Some ([] # ds) \<Longrightarrow>
   log_event query_params = ([id_line event_id, note_line], None)"
  by (auto simp: log_event_def item0_def truthy_def)

lemma do_GET_with_event:
  assumes "urlparse_query hc (asc path) = Inr q"
    and "parse_qs q (asc ''id'') = Some (event_id # ids)"
    and "parse_qs q (asc ''event'') = Some (d # ds)"
    and "d \<noteq> []"
  shows "do_GET hc path =
           (Print (request_line path) # Print (id_line event_id) # Print (data_line d)
              # Print (size_line d) # map Print (try_decode d) @ [SuperGet path], None)"
  using assms by (simp add: do_GET_def log_event_with_event)

text \<open>The lists \<^verbatim>\<open>parse_qs\<close> stores are never empty, so the subscripts never fail.\<close>

lemma add_value_nonempty:
  "(\<And>k vs. m k = Some vs \<Longrightarrow> vs \<noteq> []) \<Longrightarrow> add_value m nv k = Some vs \<Longrightarrow> vs \<noteq> []"
  by (auto simp: add_value_def split: option.splits if_splits)

lemma foldl_add_value_nonempty:
  "(\<And>k vs. m k = Some vs \<Longrightarrow> vs \<noteq> []) \<Longrightarrow> foldl add_value m nvs k = Some vs \<Longrightarrow> vs \<noteq> []"
proof (induction nvs arbitrary: m k vs)
  case Nil
  then show ?case by simp
next
  case (Cons nv nvs)
  have "\<And>k vs. add_value m nv k = Some vs \<Longrightarrow> vs \<noteq> []"
    using Cons.prems(1) add_value_nonempty by blast
  from Cons.IH[OF this] Cons.prems(2) show ?case by simp
qed

lemma parse_qs_nonempty: "parse_qs q k = Some vs \<Longrightarrow> vs \<noteq> []"
  unfolding parse_qs_def by (rule foldl_add_value_nonempty[of Map.empty]) simp_all

lemma log_event_parse_qs_returns: "snd (log_event (parse_qs q)) = None"
proof (cases "parse_qs q (asc ''id'')")
  case None
  then show ?thesis by (simp add: log_event_no_id)
next
  case (Some ids)
  then obtain event_id ids' where ids: "ids = event_id # ids'"
    using parse_qs_nonempty by (cases ids) auto
  show ?thesis
  proof (cases "parse_qs q (asc ''event'')")
    case None
    with Some ids show ?thesis by (simp add: log_event_without_event)
  next
    case ev: (Some events)
    then obtain d ds where "events = d # ds"
      using parse_qs_nonempty by (cases events) auto
    with Some ids ev show ?thesis
      by (cases "d = []") (simp_all add: log_event_with_event log_event_without_event)
  qed
qed

lemma try_decode_failure: "decode_event d = Inl e \<Longrightarrow> try_decode d = [error_line e]"
  by (simp add: try_decode_def)

subsection \<open>The lines of a decoded event\<close>









text \<open>Whatever the event holds, the block prints its lines and ends normally.\<close>

lemma do_GET_returns:
  assumes "urlparse_query hc (asc path) = Inr q"
  shows "do_GET hc path =
           (Print (request_line path) # map Print (fst (log_event (parse_qs q)))
              @ [SuperGet path], None)"
proof -
  obtain ls where "log_event (parse_qs q) = (ls, None)"
    using log_event_parse_qs_returns[of q] by (cases "log_event (parse_qs q)") auto
  with assms show ?thesis
    by (simp add: do_GET_def)
qed

subsection \<open>Fields with a blank value\<close>

lemma str_split_no_separator: "c \<notin> set xs \<Longrightarrow> str_split c cur xs = [cur @ xs]"
  by (induction xs arbitrary: cur) auto

lemma str_split_last_field:
  "c \<notin> set ys \<Longrightarrow> str_split c cur (xs @ c # ys) = str_split c cur xs @ [ys]"
  by (induction xs arbitrary: cur) (auto simp: str_split_no_separator)

lemma str_partition_blank: "c \<notin> set name \<Longrightarrow> str_partition c (name @ [c]) = (name, Some [])"
  by (induction name) (auto simp: str_partition_def)

lemma parse_field_blank: "61 \<notin> set name \<Longrightarrow> parse_field (name @ [61]) = []"
  by (simp add: parse_field_def str_partition_blank)

lemma parse_field_empty: "parse_field [] = []"
  by (simp add: parse_field_def)

lemma parse_qsl_fields: "parse_qsl qs = concat (map parse_field (str_split 38 [] qs))"
  by (simp add: parse_qsl_def parse_field_empty)

lemma parse_qsl_blank_last:
  assumes "38 \<notin> set name" and "61 \<notin> set name"
  shows "parse_qsl (qs @ 38 # name @ [61]) = parse_qsl qs"
proof -
  have "38 \<notin> set (name @ [61])"
    using assms(1) by simp
  then have "str_split 38 [] (qs @ 38 # name @ [61]) = str_split 38 [] qs @ [name @ [61]]"
    by (rule str_split_last_field)
  then show ?thesis
    by (simp add: parse_qsl_fields parse_field_blank[OF assms(2)])
qed

lemma parse_qsl_blank_only:
  assumes "38 \<notin> set name" and "61 \<notin> set name"
  shows "parse_qsl (name @ [61]) = []"
proof -
  have "38 \<notin> set (name @ [61])"
    using assms(1) by simp
  then have "str_split 38 [] (name @ [61]) = [name @ [61]]"
    using str_split_no_separator[of 38 "name @ [61]" "[]"] by simp
  then show ?thesis
    by (simp add: parse_qsl_fields parse_field_blank[OF assms(2)])
qed

subsection \<open>Requests used as examples\<close>

lemma request_bad_base64:
  "urlparse_query hc (asc ''/?id=x&event=A'') = Inr (asc ''id=x&event=A'')"
  "parse_qs (asc ''id=x&event=A'') (asc ''id'') = Some [asc ''x'']"
  "parse_qs (asc ''id=x&event=A'') (asc ''event'') = Some [asc ''A'']"
  "decode_event (asc ''A'') = Inl BinasciiError"
  by (simp_all add: url_eval qs_eval decode_eval asc_def)

lemma request_bad_utf8:
  "urlparse_query hc (asc ''/?id=x&event=gA'') = Inr (asc ''id=x&event=gA'')"
  "parse_qs (asc ''id=x&event=gA'') (asc ''id'') = Some [asc ''x'']"
  "parse_qs (asc ''id=x&event=gA'') (asc ''event'') = Some [asc ''gA'']"
  "urlsafe_b64decode (padded (asc ''gA'')) = Inr [128]"
  "decode_event (asc ''gA'') = Inl UnicodeDecodeError"
  by (simp_all add: url_eval qs_eval decode_eval asc_def)

lemma request_bad_json:
  "urlparse_query hc (asc ''/?id=x&event=e3'') = Inr (asc ''id=x&event=e3'')"
  "parse_qs (asc ''id=x&event=e3'') (asc ''id'') = Some [asc ''x'']"
  "parse_qs (asc ''id=x&event=e3'') (asc ''event'') = Some [asc ''e3'']"
  "urlsafe_b64decode (padded (asc ''e3'')) = Inr (asc ''{'')"
  "decode_event (asc ''e3'') = Inl JSONDecodeError"
  by (simp_all add: url_eval qs_eval decode_eval asc_def)


lemma request_spec:
  "urlparse_query hc (asc (''/?id=abc&event='' @ spec_event))
     = Inr (asc (''id=abc&event='' @ spec_event))"
  "parse_qs (asc (''id=abc&event='' @ spec_event)) (asc ''id'') = Some [asc ''abc'']"
  "parse_qs (asc (''id=abc&event='' @ spec_event)) (asc ''event'') = Some [asc spec_event]"
  "asc spec_event \<noteq> []"
  by (simp_all add: url_eval qs_eval asc_def spec_event_def)

lemma decode_spec:
  "urlsafe_b64decode (padded (asc spec_event)) = Inr (asc spec_json)"
  "utf8_decode (asc spec_json) = Inr (asc spec_json)"
  "json_loads (asc spec_json) = Inr (PDict [(asc ''kind'', PInt 1), (asc ''pubkey'', PStr (asc ''abcd1234abcd1234extra'')),
                 (asc ''content'', PStr (asc ''hello'')), (asc ''created_at'', PInt 1700000000)])"
  by (simp_all add: decode_eval asc_def example_defs)

lemma decode_event_spec: "decode_event (asc spec_event) = Inr (PDict [(asc ''kind'', PInt 1), (asc ''pubkey'', PStr (asc ''abcd1234abcd1234extra'')),
                 (asc ''content'', PStr (asc ''hello'')), (asc ''created_at'', PInt 1700000000)])"
  by (simp add: decode_event_def decode_spec)

lemma decode_event_spec_padded:
  "decode_event (asc (spec_event @ ''=='')) = Inr (PDict [(asc ''kind'', PInt 1), (asc ''pubkey'', PStr (asc ''abcd1234abcd1234extra'')),
                 (asc ''content'', PStr (asc ''hello'')), (asc ''created_at'', PInt 1700000000)])"
  by (simp add: decode_eval asc_def example_defs)


lemma print_event_spec:
  "print_event (PDict [(asc ''kind'', PInt 1), (asc ''pubkey'', PStr (asc ''abcd1234abcd1234extra'')),
                 (asc ''content'', PStr (asc ''hello'')), (asc ''created_at'', PInt 1700000000)]) =
     ([decoded_line,
       [Lit (asc ''   Kind: ''), Fmt (PInt 1)],
       [Lit (asc ''   Author: ''), Fmt (PStr (asc ''abcd1234abcd1234'')), Lit (asc ''...'')],
       [Lit (asc ''   Content: ''), Fmt (PStr (asc ''hello'')), Fmt (PStr [])],
       [Lit (asc ''   Created: ''), Fmt (PInt 1700000000)]], None)"
  by (simp add: print_eval asc_def)




section \<open>The claims\<close>

text \<open>
  C1 (amended). Before base64url decoding the event value of length \<open>L\<close> is right-padded
  with exactly \<open>4 - L mod 4\<close> characters \<open>=\<close>, which makes its length a multiple of four;
  a value whose length is already a multiple of four receives four of them, which the
  decoder skips when the value is made of base64url characters. For every value of
  base64url characters with \<open>L mod 4 = 1\<close> the decode fails with the decoder's error for a
  group left open.
\<close>

theorem padding_amended:
  "padded s = s @ replicate (4 - length s mod 4) 61
   \<and> length (padded s) mod 4 = 0
   \<and> (length s mod 4 = 0 \<longrightarrow> padded s = s @ [61, 61, 61, 61])
   \<and> (list_all b64url_char s \<and> length s mod 4 = 0 \<longrightarrow>
        urlsafe_b64decode (padded s) = urlsafe_b64decode s)
   \<and> (list_all b64url_char s \<and> length s mod 4 = 1 \<longrightarrow> decode_event s = Inl BinasciiError)"
proof (intro conjI impI)
  show "padded s = s @ replicate (4 - length s mod 4) 61"
    by (simp add: padded_def)
  show "length (padded s) mod 4 = 0"
    unfolding padded_def by (simp add: mod_simps) presburger
  show "padded s = s @ [61, 61, 61, 61]" if "length s mod 4 = 0"
    using that by (simp add: padded_def replicate_pad)
  show "urlsafe_b64decode (padded s) = urlsafe_b64decode s"
    if h: "list_all b64url_char s \<and> length s mod 4 = 0"
  proof -
    from h have "padded s = s @ [61, 61, 61, 61]"
      by (simp add: padded_def replicate_pad)
    with h urlsafe_b64decode_full_groups[of s] show ?thesis
      by simp
  qed
  show "decode_event s = Inl BinasciiError" if h: "list_all b64url_char s \<and> length s mod 4 = 1"
  proof -
    from h have "padded s = s @ [61, 61, 61]"
      by (simp add: padded_def replicate_pad)
    with h urlsafe_b64decode_open_group[of s] show ?thesis
      by (simp add: decode_event_def)
  qed
qed

theorem padding_amended_witness:
  "length (asc ''AAAAA'') mod 4 = 1 \<and> list_all b64url_char (asc ''AAAAA'')
   \<and> padded (asc ''AAAAA'') = asc ''AAAAA===''
   \<and> decode_event (asc ''AAAAA'') = Inl BinasciiError
   \<and> length (asc ''AAAA'') mod 4 = 0 \<and> list_all b64url_char (asc ''AAAA'')
   \<and> padded (asc ''AAAA'') = asc ''AAAA====''
   \<and> urlsafe_b64decode (padded (asc ''AAAA'')) = urlsafe_b64decode (asc ''AAAA'')"
proof -
  have five: "list_all b64url_char (asc ''AAAAA'') \<and> length (asc ''AAAAA'') mod 4 = 1"
    and four: "list_all b64url_char (asc ''AAAA'') \<and> length (asc ''AAAA'') mod 4 = 0"
    by (simp_all add: asc_def b64url_char_def is_alpha_def)
  have pads:
    "asc ''AAAAA'' @ replicate (4 - length (asc ''AAAAA'') mod 4) 61 = asc ''AAAAA===''"
    "asc ''AAAA'' @ [61, 61, 61, 61] = asc ''AAAA====''"
    by (simp_all add: asc_def replicate_pad)
  note at_five = padding_amended[of "asc ''AAAAA''"]
  note at_four = padding_amended[of "asc ''AAAA''"]
  have a1: "padded (asc ''AAAAA'') = asc ''AAAAA===''"
    by (rule trans[OF at_five[THEN conjunct1] pads(1)])
  have a2: "decode_event (asc ''AAAAA'') = Inl BinasciiError"
    by (rule at_five[THEN conjunct2, THEN conjunct2, THEN conjunct2, THEN conjunct2,
          THEN mp, OF five])
  have b1: "padded (asc ''AAAA'') = asc ''AAAA====''"
    by (rule trans[OF at_four[THEN conjunct2, THEN conjunct2, THEN conjunct1, THEN mp,
            OF four[THEN conjunct2]] pads(2)])
  have b2: "urlsafe_b64decode (padded (asc ''AAAA'')) = urlsafe_b64decode (asc ''AAAA'')"
    by (rule at_four[THEN conjunct2, THEN conjunct2, THEN conjunct2, THEN conjunct1,
          THEN mp, OF four])
  show ?thesis
    by (intro conjI)
       (rule five[THEN conjunct2] five[THEN conjunct1] a1 a2 four[THEN conjunct2]
          four[THEN conjunct1] b1 b2)+
qed

text \<open>
  The claim as stated fails twice. The value \<open>e30=\<close> has length four and is padded with
  four characters, not with none. The value \<open>e30==\<close>, which the query
  \<open>id=x&event=e30==\<close> carries, has length five, and its decode succeeds: the decoder
  stops at the padding that completes the group \<open>e30=\<close> and returns the bytes of \<open>{}\<close>.
\<close>

theorem padding_counterexample:
  "length (asc ''e30='') mod 4 = 0
   \<and> padded (asc ''e30='') = asc ''e30=====''
   \<and> padded (asc ''e30='') \<noteq> asc ''e30=''
   \<and> parse_qs (asc ''id=x&event=e30=='') (asc ''event'') = Some [asc ''e30=='']
   \<and> length (asc ''e30=='') mod 4 = 1
   \<and> decode_event (asc ''e30=='') = Inr (PDict [])"
  by (simp add: decode_eval qs_eval asc_def)

text \<open>
  C2. For every event value whose decode fails at any stage (base64, UTF-8 or JSON; see
  \<open>decode_event_stages\<close>), the handler prints the failure notice with the description of
  the error, no exception leaves the handler, and the static file server is called for
  the path.
\<close>

theorem decode_failure_is_caught:
  assumes "urlparse_query hc (asc path) = Inr q"
    and "parse_qs q (asc ''id'') = Some (event_id # ids)"
    and "parse_qs q (asc ''event'') = Some (d # ds)"
    and "d \<noteq> []"
    and "decode_event d = Inl e"
  shows "do_GET hc path =
           ([Print (request_line path), Print (id_line event_id), Print (data_line d),
             Print (size_line d),
             Print [Lit (10060 # asc '' Error decoding event: ''), FmtErr e],
             SuperGet path], None)"
  using assms by (simp add: do_GET_with_event try_decode_failure error_line_def)

theorem decode_failure_is_caught_witness:
  "decode_event (asc ''A'') = Inl BinasciiError
   \<and> do_GET no_bracket_check ''/?id=x&event=A'' =
       ([Print (request_line ''/?id=x&event=A''), Print (id_line (asc ''x'')),
         Print (data_line (asc ''A'')), Print (size_line (asc ''A'')),
         Print [Lit (10060 # asc '' Error decoding event: ''), FmtErr BinasciiError],
         SuperGet ''/?id=x&event=A''], None)
   \<and> decode_event (asc ''gA'') = Inl UnicodeDecodeError
   \<and> do_GET no_bracket_check ''/?id=x&event=gA'' =
       ([Print (request_line ''/?id=x&event=gA''), Print (id_line (asc ''x'')),
         Print (data_line (asc ''gA'')), Print (size_line (asc ''gA'')),
         Print [Lit (10060 # asc '' Error decoding event: ''), FmtErr UnicodeDecodeError],
         SuperGet ''/?id=x&event=gA''], None)
   \<and> decode_event (asc ''e3'') = Inl JSONDecodeError
   \<and> do_GET no_bracket_check ''/?id=x&event=e3'' =
       ([Print (request_line ''/?id=x&event=e3''), Print (id_line (asc ''x'')),
         Print (data_line (asc ''e3'')), Print (size_line (asc ''e3'')),
         Print [Lit (10060 # asc '' Error decoding event: ''), FmtErr JSONDecodeError],
         SuperGet ''/?id=x&event=e3''], None)"
proof -
  have ne: "asc ''A'' \<noteq> []" "asc ''gA'' \<noteq> []" "asc ''e3'' \<noteq> []"
    by (simp_all add: asc_def)
  note a = decode_failure_is_caught[OF request_bad_base64(1-3) ne(1) request_bad_base64(4),
      of no_bracket_check]
  note b = decode_failure_is_caught[OF request_bad_utf8(1-3) ne(2) request_bad_utf8(5),
      of no_bracket_check]
  note c = decode_failure_is_caught[OF request_bad_json(1-3) ne(3) request_bad_json(5),
      of no_bracket_check]
  from a b c request_bad_base64(4) request_bad_utf8(5) request_bad_json(5)
  show ?thesis by simp
qed

text \<open>
  C3. For the payload of the specification as the event value, with \<open>id\<close> present,
  decoding recovers exactly its four fields, and the handler prints kind 1 and
  created_at 1700000000 as they are, the first 16 characters of the pubkey (followed by
  the ellipsis of the author line) and the content \<open>hello\<close> with no ellipsis. The same
  fields come out of the value with its two padding characters kept.
\<close>

theorem example_payload:
  "urlsafe_b64decode (padded (asc spec_event)) = Inr (asc spec_json)
   \<and> decode_event (asc spec_event) = Inr (PDict [(asc ''kind'', PInt 1), (asc ''pubkey'', PStr (asc ''abcd1234abcd1234extra'')),
                 (asc ''content'', PStr (asc ''hello'')), (asc ''created_at'', PInt 1700000000)])
   \<and> decode_event (asc (spec_event @ ''=='')) = Inr (PDict [(asc ''kind'', PInt 1), (asc ''pubkey'', PStr (asc ''abcd1234abcd1234extra'')),
                 (asc ''content'', PStr (asc ''hello'')), (asc ''created_at'', PInt 1700000000)])
   \<and> do_GET hc (''/?id=abc&event='' @ spec_event) =
       ([Print (request_line (''/?id=abc&event='' @ spec_event)),
         Print (id_line (asc ''abc'')),
         Print (data_line (asc spec_event)),
         Print (size_line (asc spec_event)),
         Print decoded_line,
         Print [Lit (asc ''   Kind: ''), Fmt (PInt 1)],
         Print [Lit (asc ''   Author: ''), Fmt (PStr (asc ''abcd1234abcd1234'')), Lit (asc ''...'')],
         Print [Lit (asc ''   Content: ''), Fmt (PStr (asc ''hello'')), Fmt (PStr [])],
         Print [Lit (asc ''   Created: ''), Fmt (PInt 1700000000)],
         SuperGet (''/?id=abc&event='' @ spec_event)], None)
   \<and> map render
         [[Lit (asc ''   Kind: ''), Fmt (PInt 1)],
          [Lit (asc ''   Author: ''), Fmt (PStr (asc ''abcd1234abcd1234'')), Lit (asc ''...'')],
          [Lit (asc ''   Content: ''), Fmt (PStr (asc ''hello'')), Fmt (PStr [])],
          [Lit (asc ''   Created: ''), Fmt (PInt 1700000000)]] =
       [Some (asc ''   Kind: 1''), Some (asc ''   Author: abcd1234abcd1234...''),
        Some (asc ''   Content: hello''), Some (asc ''   Created: 1700000000'')]"
proof (intro conjI)
  show "urlsafe_b64decode (padded (asc spec_event)) = Inr (asc spec_json)"
    by (rule decode_spec(1))
  show "decode_event (asc spec_event) = Inr (PDict [(asc ''kind'', PInt 1), (asc ''pubkey'', PStr (asc ''abcd1234abcd1234extra'')),
                 (asc ''content'', PStr (asc ''hello'')), (asc ''created_at'', PInt 1700000000)])"
    by (rule decode_event_spec)
  show "decode_event (asc (spec_event @ ''=='')) = Inr (PDict [(asc ''kind'', PInt 1), (asc ''pubkey'', PStr (asc ''abcd1234abcd1234extra'')),
                 (asc ''content'', PStr (asc ''hello'')), (asc ''created_at'', PInt 1700000000)])"
    by (rule decode_event_spec_padded)
  show "do_GET hc (''/?id=abc&event='' @ spec_event) =
       ([Print (request_line (''/?id=abc&event='' @ spec_event)),
         Print (id_line (asc ''abc'')),
         Print (data_line (asc spec_event)),
         Print (size_line (asc spec_event)),
         Print decoded_line,
         Print [Lit (asc ''   Kind: ''), Fmt (PInt 1)],
         Print [Lit (asc ''   Author: ''), Fmt (PStr (asc ''abcd1234abcd1234'')), Lit (asc ''...'')],
         Print [Lit (asc ''   Content: ''), Fmt (PStr (asc ''hello'')), Fmt (PStr [])],
         Print [Lit (asc ''   Created: ''), Fmt (PInt 1700000000)],
         SuperGet (''/?id=abc&event='' @ spec_event)], None)"
    unfolding do_GET_with_event[OF request_spec]
    by (simp add: try_decode_def decode_event_spec print_event_spec)
  show "map render
         [[Lit (asc ''   Kind: ''), Fmt (PInt 1)],
          [Lit (asc ''   Author: ''), Fmt (PStr (asc ''abcd1234abcd1234'')), Lit (asc ''...'')],
          [Lit (asc ''   Content: ''), Fmt (PStr (asc ''hello'')), Fmt (PStr [])],
          [Lit (asc ''   Created: ''), Fmt (PInt 1700000000)]] =
       [Some (asc ''   Kind: 1''), Some (asc ''   Author: abcd1234abcd1234...''),
        Some (asc ''   Content: hello''), Some (asc ''   Created: 1700000000'')]"
    by (simp add: py_str_def asc_def digits.simps)
qed






text \<open>
  C6. When both \<open>id\<close> and a non-empty event value are present, the handler prints, after
  the request and the identifier, the first 50 characters of the value, followed by the
  ellipsis exactly when the value is longer than 50, and then the full length of the
  value.
\<close>

theorem event_preview_and_size:
  assumes "urlparse_query hc (asc path) = Inr q"
    and "parse_qs q (asc ''id'') = Some (event_id # ids)"
    and "parse_qs q (asc ''event'') = Some (d # ds)"
    and "d \<noteq> []"
  shows "take 4 (fst (do_GET hc path)) =
           [Print (request_line path), Print (id_line event_id),
            Print [Lit (128230 # asc '' Event Data: ''), Fmt (PStr (take 50 d)),
                   Fmt (PStr (if 50 < length d then asc ''...'' else []))],
            Print [Lit (128207 # asc '' Event Data Size: ''), Fmt (PInt (int (length d))),
                   Lit (asc '' characters'')]]
         \<and> render (data_line d) =
             Some (128230 # asc '' Event Data: '' @ take 50 d
                   @ (if 50 < length d then asc ''...'' else []))
         \<and> render (size_line d) =
             Some (128207 # asc '' Event Data Size: '' @ digits (length d) @ asc '' characters'')"
  using assms
  by (simp add: do_GET_with_event data_line_def size_line_def ellipsis_def py_str_def)

theorem event_preview_and_size_witness:
  "take 4 (fst (do_GET no_bracket_check ''/?id=x&event=e3'')) =
     [Print (request_line ''/?id=x&event=e3''), Print (id_line (asc ''x'')),
      Print [Lit (128230 # asc '' Event Data: ''), Fmt (PStr (asc ''e3'')), Fmt (PStr [])],
      Print [Lit (128207 # asc '' Event Data Size: ''), Fmt (PInt 2),
             Lit (asc '' characters'')]]
   \<and> render (size_line (asc ''e3'')) = Some (128207 # asc '' Event Data Size: 2 characters'')
   \<and> length (asc spec_event) = 114
   \<and> take 4 (fst (do_GET no_bracket_check (''/?id=abc&event='' @ spec_event))) =
     [Print (request_line (''/?id=abc&event='' @ spec_event)), Print (id_line (asc ''abc'')),
      Print [Lit (128230 # asc '' Event Data: ''), Fmt (PStr (asc (take 50 spec_event))),
             Fmt (PStr (asc ''...''))],
      Print [Lit (128207 # asc '' Event Data Size: ''), Fmt (PInt 114),
             Lit (asc '' characters'')]]"
proof -
  have ne: "asc ''e3'' \<noteq> []"
    by (simp add: asc_def)
  have len: "length (asc spec_event) = 114" "take 50 (asc spec_event) = asc (take 50 spec_event)"
    by (simp_all add: asc_def spec_event_def)
  from event_preview_and_size[OF request_bad_json(1-3) ne, of no_bracket_check]
  have a: "take 4 (fst (do_GET no_bracket_check ''/?id=x&event=e3'')) =
     [Print (request_line ''/?id=x&event=e3''), Print (id_line (asc ''x'')),
      Print [Lit (128230 # asc '' Event Data: ''), Fmt (PStr (asc ''e3'')), Fmt (PStr [])],
      Print [Lit (128207 # asc '' Event Data Size: ''), Fmt (PInt 2),
             Lit (asc '' characters'')]]
   \<and> render (size_line (asc ''e3'')) = Some (128207 # asc '' Event Data Size: 2 characters'')"
    by (simp add: asc_def digits.simps)
  from event_preview_and_size[OF request_spec(1)[of no_bracket_check] request_spec(2-4)] len
  have b: "take 4 (fst (do_GET no_bracket_check (''/?id=abc&event='' @ spec_event))) =
     [Print (request_line (''/?id=abc&event='' @ spec_event)), Print (id_line (asc ''abc'')),
      Print [Lit (128230 # asc '' Event Data: ''), Fmt (PStr (asc (take 50 spec_event))),
             Fmt (PStr (asc ''...''))],
      Print [Lit (128207 # asc '' Event Data Size: ''), Fmt (PInt 114),
             Lit (asc '' characters'')]]"
    by simp
  from a b len(1) show ?thesis by simp
qed

text \<open>
  C7 (amended). For every GET request whose path \<^verbatim>\<open>urlparse\<close> accepts, whatever the
  query holds and however the decoding ends, no exception leaves the handler and its
  last effect, after the lines it prints, is the one call of the static file server,
  for the path of the request as it came.
\<close>

theorem delegation_amended:
  assumes "urlparse_query hc (asc path) = Inr q"
  shows "do_GET hc path =
           (Print (request_line path) # map Print (fst (log_event (parse_qs q)))
              @ [SuperGet path], None)"
  using assms by (rule do_GET_returns)

theorem delegation_amended_witness:
  "urlparse_query no_bracket_check (asc ''/?id=x&event=A'') = Inr (asc ''id=x&event=A'')
   \<and> do_GET no_bracket_check ''/?id=x&event=A'' =
       (Print (request_line ''/?id=x&event=A'')
          # map Print (fst (log_event (parse_qs (asc ''id=x&event=A''))))
          @ [SuperGet ''/?id=x&event=A''], None)"
  using delegation_amended[OF request_bad_base64(1), of no_bracket_check] request_bad_base64(1)
  by simp

text \<open>
  The claim as stated fails on a request whose path \<^verbatim>\<open>urlparse\<close> refuses: for
  \<^verbatim>\<open>GET http://[ HTTP/1.1\<close> line 17 raises \<^verbatim>\<open>ValueError\<close> (an opening bracket in the
  network location and no closing one), nothing is printed and the static file server
  is never called.
\<close>

theorem delegation_counterexample:
  "do_GET no_bracket_check ''http://['' = ([], Some ValueError)"
  by (simp add: do_GET_def url_eval asc_def)



text \<open>
  C9. When the query mapping contains \<open>id\<close> and the event value is absent or empty, the
  handler prints the identifier and the note that the payload was likely left out for
  its size, and nothing else about the event: no preview, no size, no decoding. On a
  request the only other effects are the request line and the call of the static file
  server.
\<close>

theorem missing_event_note:
  "(query_params (asc ''id'') = Some (event_id # ids)
      \<and> (query_params (asc ''event'') = None \<or> query_params (asc ''event'') = Some ([] # ds))
    \<longrightarrow> log_event query_params =
          ([[Lit (127919 # asc '' Event ID: ''), Fmt (PStr event_id)],
            [Lit (8505 # 65039 # asc ''  Event data not included (likely > 500KB)'')]], None))
   \<and> (urlparse_query hc (asc path) = Inr q \<and> parse_qs q (asc ''id'') = Some (event_id # ids)
      \<and> parse_qs q (asc ''event'') = None
    \<longrightarrow> do_GET hc path =
          ([Print (request_line path), Print (id_line event_id), Print note_line,
            SuperGet path], None))"
  by (auto simp: do_GET_def log_event_without_event id_line_def note_line_def)

theorem missing_event_note_witness:
  "log_event [asc ''id'' \<mapsto> [asc ''x''], asc ''event'' \<mapsto> [[]]] =
     ([[Lit (127919 # asc '' Event ID: ''), Fmt (PStr (asc ''x''))],
       [Lit (8505 # 65039 # asc ''  Event data not included (likely > 500KB)'')]], None)
   \<and> parse_qs (asc ''id=x'') (asc ''event'') = None
   \<and> do_GET no_bracket_check ''/?id=x'' =
       ([Print (request_line ''/?id=x''), Print (id_line (asc ''x'')), Print note_line,
         SuperGet ''/?id=x''], None)"
proof -
  have q: "urlparse_query no_bracket_check (asc ''/?id=x'') = Inr (asc ''id=x'')"
    by (simp add: url_eval asc_def)
  have i: "parse_qs (asc ''id=x'') (asc ''id'') = Some [asc ''x'']"
    and e: "parse_qs (asc ''id=x'') (asc ''event'') = None"
    by (simp_all add: qs_eval asc_def)
  have m: "[asc ''id'' \<mapsto> [asc ''x''], asc ''event'' \<mapsto> [[]]] (asc ''id'') = Some [asc ''x'']"
    "[asc ''id'' \<mapsto> [asc ''x''], asc ''event'' \<mapsto> [[]]] (asc ''event'') = Some [[]]"
    by (simp_all add: asc_def)
  from missing_event_note[of "[asc ''id'' \<mapsto> [asc ''x''], asc ''event'' \<mapsto> [[]]]"
      "asc ''x''" "[]" "[]" no_bracket_check "''/?id=x''" "asc ''id=x''"] q i e m
  show ?thesis by simp
qed

text \<open>
  C10. A query field with an empty value is dropped by \<^verbatim>\<open>parse_qs\<close> before the handler
  looks at the mapping: a query that is one such field parses to the empty mapping,
  and one more such field at the end of a query changes nothing. So the request with
  the query \<open>id=\<close> has the effects of a request with no query (the request line, which
  echoes the path, and the static file server: nothing about the event), and the
  request with \<open>id=x&event=\<close> those of the request with \<open>id=x\<close>: the identifier and the
  note, no decoding.
\<close>

theorem blank_values_dropped:
  "(38 \<notin> set name \<and> 61 \<notin> set name \<longrightarrow>
      parse_qs (name @ [61]) = Map.empty \<and> parse_qs (qs @ 38 # name @ [61]) = parse_qs qs)
   \<and> parse_qs (asc ''id='') = parse_qs []
   \<and> log_event (parse_qs (asc ''id='')) = ([], None)
   \<and> do_GET hc ''/?id='' = ([Print (request_line ''/?id=''), SuperGet ''/?id=''], None)
   \<and> do_GET hc ''/'' = ([Print (request_line ''/''), SuperGet ''/''], None)
   \<and> parse_qs (asc ''id=x&event='') = parse_qs (asc ''id=x'')
   \<and> do_GET hc ''/?id=x&event='' =
       ([Print (request_line ''/?id=x&event=''), Print (id_line (asc ''x'')), Print note_line,
         SuperGet ''/?id=x&event=''], None)
   \<and> do_GET hc ''/?id=x'' =
       ([Print (request_line ''/?id=x''), Print (id_line (asc ''x'')), Print note_line,
         SuperGet ''/?id=x''], None)"
proof (intro conjI impI)
  show "parse_qs (name @ [61]) = Map.empty" if "38 \<notin> set name \<and> 61 \<notin> set name"
    using that by (simp add: parse_qs_def parse_qsl_blank_only)
  show "parse_qs (qs @ 38 # name @ [61]) = parse_qs qs" if "38 \<notin> set name \<and> 61 \<notin> set name"
    using that by (simp add: parse_qs_def parse_qsl_blank_last)
  show "parse_qs (asc ''id='') = parse_qs []"
    by (simp add: qs_eval asc_def)
  show "log_event (parse_qs (asc ''id='')) = ([], None)"
    by (rule log_event_no_id) (simp add: qs_eval asc_def)
  show "parse_qs (asc ''id=x&event='') = parse_qs (asc ''id=x'')"
    by (simp add: qs_eval asc_def)
  have blank_id: "urlparse_query hc (asc ''/?id='') = Inr (asc ''id='')"
    "parse_qs (asc ''id='') (asc ''id'') = None"
    by (simp_all add: url_eval qs_eval asc_def)
  then show "do_GET hc ''/?id='' = ([Print (request_line ''/?id=''), SuperGet ''/?id=''], None)"
    by (simp add: do_GET_def log_event_no_id)
  have no_query: "urlparse_query hc (asc ''/'') = Inr []" "parse_qs [] (asc ''id'') = None"
    by (simp_all add: url_eval qs_eval asc_def)
  then show "do_GET hc ''/'' = ([Print (request_line ''/''), SuperGet ''/''], None)"
    by (simp add: do_GET_def log_event_no_id)
  have blank_event: "urlparse_query hc (asc ''/?id=x&event='') = Inr (asc ''id=x&event='')"
    "parse_qs (asc ''id=x&event='') (asc ''id'') = Some [asc ''x'']"
    "parse_qs (asc ''id=x&event='') (asc ''event'') = None"
    by (simp_all add: url_eval qs_eval asc_def)
  then show "do_GET hc ''/?id=x&event='' =
       ([Print (request_line ''/?id=x&event=''), Print (id_line (asc ''x'')), Print note_line,
         SuperGet ''/?id=x&event=''], None)"
    by (simp add: do_GET_def log_event_without_event)
  have no_event: "urlparse_query hc (asc ''/?id=x'') = Inr (asc ''id=x'')"
    "parse_qs (asc ''id=x'') (asc ''id'') = Some [asc ''x'']"
    "parse_qs (asc ''id=x'') (asc ''event'') = None"
    by (simp_all add: url_eval qs_eval asc_def)
  then show "do_GET hc ''/?id=x'' =
       ([Print (request_line ''/?id=x''), Print (id_line (asc ''x'')), Print note_line,
         SuperGet ''/?id=x''], None)"
    by (simp add: do_GET_def log_event_without_event)
qed

theorem blank_values_dropped_witness:
  "38 \<notin> set (asc ''event'') \<and> 61 \<notin> set (asc ''event'')
   \<and> parse_qs (asc ''event='') = Map.empty
   \<and> parse_qs (asc ''id=x&event='') = parse_qs (asc ''id=x'')
   \<and> do_GET no_bracket_check ''/?id='' =
       ([Print (request_line ''/?id=''), SuperGet ''/?id=''], None)"
proof -
  have n: "38 \<notin> set (asc ''event'') \<and> 61 \<notin> set (asc ''event'')"
    by (simp add: asc_def)
  have t: "asc ''event'' @ [61] = asc ''event=''"
    "asc ''id=x'' @ 38 # asc ''event'' @ [61] = asc ''id=x&event=''"
    by (simp_all add: asc_def)
  from blank_values_dropped[of "asc ''event''" "asc ''id=x''" no_bracket_check] n t
  show ?thesis by simp
qed

end
